theory Spec2Isabelle
  imports Complex_Main "HOL-Library.Log_Nat"
begin

section \<open>Screenshot Beautifier: the settings model\<close>

text \<open>
  The development follows \<^verbatim>\<open>src/screenshot-beautifier/src/App.tsx\<close>. A TypeScript
  \<^verbatim>\<open>number\<close> is modelled as a \<^typ>\<open>real\<close>, the value of a finite double (NaN and
  the infinities are not part of the model). The shadow geometry is computed in exact
  arithmetic; the overlay opacities are computed as the source computes them, with
  every operation rounded to binary64 (section on binary64 below).

  A JavaScript string is a sequence of UTF-16 code units: \<open>jsstring\<close> is a list of
  code units, each a natural number, and \<open>units\<close> writes the code units of an ASCII
  literal. File names and the display name of the image are of this type. Media types,
  colours, data URLs and messages are ASCII and stay lists of characters.
\<close>

type_synonym codeunit = nat

type_synonym jsstring = "codeunit list"

definition units :: "string \<Rightarrow> jsstring" where
  "units s = map of_char s"


datatype BackgroundType = gradient | solid

record Settings =
  borderRadius :: real
  padding :: real
  dropShadow :: real
  backgroundType :: BackgroundType
  gradientFrom :: string
  gradientTo :: string
  gradientAngle :: real
  backgroundColor :: string
  showWindowChrome :: bool
  windowAccent :: string
  noise :: real
  vignette :: real

definition DEFAULT_SETTINGS :: Settings where
  "DEFAULT_SETTINGS =
     \<lparr> borderRadius = 36,
       padding = 72,
       dropShadow = 65,
       backgroundType = gradient,
       gradientFrom = ''#60a5fa'',
       gradientTo = ''#a855f7'',
       gradientAngle = 135,
       backgroundColor = ''#0f172a'',
       showWindowChrome = True,
       windowAccent = ''#22d3ee'',
       noise = 12,
       vignette = 40 \<rparr>"

text \<open>The presets: \<^verbatim>\<open>from\<close>, \<^verbatim>\<open>to\<close>, \<^verbatim>\<open>angle\<close> and \<^verbatim>\<open>color\<close> of the source carry the
  prefix \<open>preset\<close> here.\<close>

record GradientPreset =
  gradientId :: string
  gradientLabel :: string
  presetFrom :: string
  presetTo :: string
  presetAngle :: real

record SolidPreset =
  solidId :: string
  solidLabel :: string
  presetColor :: string

definition gradientPresets :: "GradientPreset list" where
  "gradientPresets =
     [ \<lparr> gradientId = ''aurora'', gradientLabel = ''Aurora'',
         presetFrom = ''#60a5fa'', presetTo = ''#a855f7'', presetAngle = 130 \<rparr>,
       \<lparr> gradientId = ''sunset'', gradientLabel = ''Sunset'',
         presetFrom = ''#fb7185'', presetTo = ''#f97316'', presetAngle = 140 \<rparr>,
       \<lparr> gradientId = ''mint'', gradientLabel = ''Mint'',
         presetFrom = ''#22d3ee'', presetTo = ''#34d399'', presetAngle = 125 \<rparr>,
       \<lparr> gradientId = ''midnight'', gradientLabel = ''Midnight'',
         presetFrom = ''#1d4ed8'', presetTo = ''#0f172a'', presetAngle = 150 \<rparr> ]"

definition solidPresets :: "SolidPreset list" where
  "solidPresets =
     [ \<lparr> solidId = ''obsidian'', solidLabel = ''Obsidian'', presetColor = ''#0f172a'' \<rparr>,
       \<lparr> solidId = ''slate'', solidLabel = ''Slate'', presetColor = ''#1f2937'' \<rparr>,
       \<lparr> solidId = ''ocean'', solidLabel = ''Ocean'', presetColor = ''#082f49'' \<rparr>,
       \<lparr> solidId = ''ice'', solidLabel = ''Ice'', presetColor = ''#e0f2fe'' \<rparr> ]"

text \<open>The export scale is the literal union \<^verbatim>\<open>1 | 2 | 3\<close>.\<close>

datatype ExportScale = Scale1 | Scale2 | Scale3

fun scaleDigits :: "ExportScale \<Rightarrow> string" where
  "scaleDigits Scale1 = ''1''"
| "scaleDigits Scale2 = ''2''"
| "scaleDigits Scale3 = ''3''"

definition exportScaleOptions :: "ExportScale list" where
  "exportScaleOptions = [Scale1, Scale2, Scale3]"

section \<open>The derived style calculator\<close>



subsection \<open>Binary64 arithmetic\<close>

text \<open>
  A JavaScript number is an IEEE 754 binary64 value, and each arithmetic operation
  returns the exact result rounded to the nearest binary64 value, ties to the even
  significand. \<open>fl x\<close> is that rounding of the real \<open>x\<close>: \<open>ilog2 x\<close> is the exponent
  \<open>\<lfloor>log\<^sub>2 x\<rfloor>\<close> of a positive \<open>x\<close>, \<open>ulp x\<close> the spacing of the binary64 values around
  \<open>x\<close> (53 significant bits, and \<open>2 powi (- 1074)\<close> in the subnormal range), and \<open>fl x\<close> the
  multiple of \<open>ulp x\<close> nearest to \<open>x\<close>. Overflow to infinity (from \<open>2 ^ 1024\<close> on) is not
  modelled. A decimal literal of the source denotes \<open>fl\<close> of its decimal value.
\<close>

definition ilog2 :: "real \<Rightarrow> int" where
  "ilog2 x = (if 1 \<le> x then bitlen \<lfloor>x\<rfloor> - 1 else - bitlen (\<lceil>1 / x\<rceil> - 1))"

definition roundTiesToEven :: "real \<Rightarrow> int" where
  "roundTiesToEven q =
     (let f = \<lfloor>q\<rfloor>; r = q - of_int f
      in if r < 1 / 2 then f else if 1 / 2 < r then f + 1 else if even f then f else f + 1)"

definition ulp :: "real \<Rightarrow> real" where
  "ulp x = 2 powi (max (ilog2 \<bar>x\<bar>) (- 1022) - 52)"

definition fl :: "real \<Rightarrow> real" where
  "fl x = (if x = 0 then 0 else sgn x * (of_int (roundTiesToEven (\<bar>x\<bar> / ulp x)) * ulp x))"

text \<open>\<^verbatim>\<open>Math.min(settings.noise / 100 * 0.35, 0.3)\<close> and
  \<^verbatim>\<open>Math.min(settings.vignette / 100 * 0.9, 0.85)\<close>: a division, a multiplication and
  the minimum, which is exact.\<close>

definition noiseOpacity :: "Settings \<Rightarrow> real" where
  "noiseOpacity s = min (fl (fl (noise s / 100) * fl 0.35)) (fl 0.3)"

definition vignetteOpacity :: "Settings \<Rightarrow> real" where
  "vignetteOpacity s = min (fl (fl (vignette s / 100) * fl 0.9)) (fl 0.85)"

section \<open>The application state and its synchronous handlers\<close>

text \<open>
  The six \<^verbatim>\<open>useState\<close> cells of \<^verbatim>\<open>App\<close>, and whether \<^verbatim>\<open>previewRef.current\<close> is
  attached. \<^verbatim>\<open>imageDataUrl\<close> is \<^verbatim>\<open>string | null\<close>; JavaScript reads both \<^verbatim>\<open>null\<close> and
  the empty string as false.
\<close>

record App =
  imageDataUrl :: "string option"
  imageName :: jsstring
  settings :: Settings
  isDragging :: bool
  isExporting :: bool
  exportScale :: ExportScale
  previewRef :: bool

definition initialApp :: App where
  "initialApp =
     \<lparr> imageDataUrl = None,
       imageName = units ''Screenshot'',
       settings = DEFAULT_SETTINGS,
       isDragging = False,
       isExporting = False,
       exportScale = Scale2,
       previewRef = True \<rparr>"

definition truthy :: "string option \<Rightarrow> bool" where
  "truthy v = (case v of None \<Rightarrow> False | Some s \<Rightarrow> s \<noteq> [])"

text \<open>\<^verbatim>\<open>updateSetting(key, value)\<close>: a key of \<open>Settings\<close> with a value of its type.\<close>

datatype SettingUpdate =
    SetBorderRadius real
  | SetPadding real
  | SetDropShadow real
  | SetBackgroundType BackgroundType
  | SetGradientFrom string
  | SetGradientTo string
  | SetGradientAngle real
  | SetBackgroundColor string
  | SetShowWindowChrome bool
  | SetWindowAccent string
  | SetNoise real
  | SetVignette real

fun updateField :: "SettingUpdate \<Rightarrow> Settings \<Rightarrow> Settings" where
  "updateField (SetBorderRadius v) previous = previous\<lparr>borderRadius := v\<rparr>"
| "updateField (SetPadding v) previous = previous\<lparr>padding := v\<rparr>"
| "updateField (SetDropShadow v) previous = previous\<lparr>dropShadow := v\<rparr>"
| "updateField (SetBackgroundType v) previous = previous\<lparr>backgroundType := v\<rparr>"
| "updateField (SetGradientFrom v) previous = previous\<lparr>gradientFrom := v\<rparr>"
| "updateField (SetGradientTo v) previous = previous\<lparr>gradientTo := v\<rparr>"
| "updateField (SetGradientAngle v) previous = previous\<lparr>gradientAngle := v\<rparr>"
| "updateField (SetBackgroundColor v) previous = previous\<lparr>backgroundColor := v\<rparr>"
| "updateField (SetShowWindowChrome v) previous = previous\<lparr>showWindowChrome := v\<rparr>"
| "updateField (SetWindowAccent v) previous = previous\<lparr>windowAccent := v\<rparr>"
| "updateField (SetNoise v) previous = previous\<lparr>noise := v\<rparr>"
| "updateField (SetVignette v) previous = previous\<lparr>vignette := v\<rparr>"

definition updateSetting :: "SettingUpdate \<Rightarrow> App \<Rightarrow> App" where
  "updateSetting u a = a\<lparr>settings := updateField u (settings a)\<rparr>"

definition resetSettings :: "App \<Rightarrow> App" where
  "resetSettings a = a\<lparr>settings := DEFAULT_SETTINGS\<rparr>"

text \<open>The \<^verbatim>\<open>onClick\<close> of a gradient swatch and of a solid swatch: one call of
  \<^verbatim>\<open>setSettings\<close> each, with a spread of the previous record.\<close>

definition selectGradientPreset :: "GradientPreset \<Rightarrow> App \<Rightarrow> App" where
  "selectGradientPreset preset a =
     a\<lparr>settings := (settings a)
        \<lparr>backgroundType := gradient,
         gradientFrom := presetFrom preset,
         gradientTo := presetTo preset,
         gradientAngle := presetAngle preset\<rparr>\<rparr>"

definition selectSolidPreset :: "SolidPreset \<Rightarrow> App \<Rightarrow> App" where
  "selectSolidPreset preset a =
     a\<lparr>settings := (settings a)
        \<lparr>backgroundType := solid,
         backgroundColor := presetColor preset\<rparr>\<rparr>"

definition setExportScale :: "ExportScale \<Rightarrow> App \<Rightarrow> App" where
  "setExportScale option a = a\<lparr>exportScale := option\<rparr>"

definition handleClearImage :: "App \<Rightarrow> App" where
  "handleClearImage a = a\<lparr>imageDataUrl := None, imageName := units ''Screenshot''\<rparr>"

text \<open>\<^verbatim>\<open>handleDragOver\<close> reads \<^verbatim>\<open>isDragging\<close> from the render that created it (the first
  argument) and updates the current state.\<close>

definition handleDragOver :: "App \<Rightarrow> App \<Rightarrow> App" where
  "handleDragOver closure a = (if \<not> isDragging closure then a\<lparr>isDragging := True\<rparr> else a)"

definition handleDragLeave :: "App \<Rightarrow> App" where
  "handleDragLeave a = a\<lparr>isDragging := False\<rparr>"

text \<open>The \<^verbatim>\<open>disabled\<close> attributes of the export button and of the clear button.\<close>

definition exportDisabled :: "App \<Rightarrow> bool" where
  "exportDisabled a = (\<not> truthy (imageDataUrl a) \<or> isExporting a)"

definition clearDisabled :: "App \<Rightarrow> bool" where
  "clearDisabled a = (\<not> truthy (imageDataUrl a))"

section \<open>Strings: file names and the download name\<close>

text \<open>
  The regular expressions of the source have no \<^verbatim>\<open>u\<close> flag, so they read a string code
  unit by code unit. The class \<^verbatim>\<open>[a-z0-9]\<close> is \<open>isLowerAlnum\<close>.
\<close>

definition hyphen :: codeunit where
  "hyphen = of_char (CHR ''-'')"

definition dot :: codeunit where
  "dot = of_char (CHR ''.'')"

definition slash :: codeunit where
  "slash = of_char (CHR ''/'')"

definition isLowerAlnum :: "codeunit \<Rightarrow> bool" where
  "isLowerAlnum c = ((97 \<le> c \<and> c \<le> 122) \<or> (48 \<le> c \<and> c \<le> 57))"

text \<open>\<^verbatim>\<open>.replace(/[^a-z0-9]+/g, '-')\<close>: scanning from the left, a code unit of the class
  is kept, and a maximal run of other code units is replaced by one hyphen.\<close>

function replaceRuns :: "jsstring \<Rightarrow> jsstring" where
  "replaceRuns [] = []"
| "replaceRuns (c # cs) =
     (if isLowerAlnum c then c # replaceRuns cs
      else hyphen # replaceRuns (dropWhile (\<lambda>d. \<not> isLowerAlnum d) cs))"
  by pat_completeness auto
termination
  by (relation "measure length") (auto simp: length_dropWhile_le less_Suc_eq_le)

text \<open>\<^verbatim>\<open>.replace(/(^-|-$)/g, '')\<close>: a hyphen at index 0 is removed, and of what follows
  it a hyphen at the last index.\<close>

definition stripEdgeHyphens :: "jsstring \<Rightarrow> jsstring" where
  "stripEdgeHyphens s =
     (let t = (case s of [] \<Rightarrow> [] | c # cs \<Rightarrow> if c = hyphen then cs else s)
      in if t \<noteq> [] \<and> last t = hyphen then butlast t else t)"

text \<open>
  \<^verbatim>\<open>imageName.toLowerCase()\<close> followed by the two replacements.
  \<^verbatim>\<open>String.prototype.toLowerCase\<close> belongs to the JavaScript runtime: it applies the
  Unicode lowercase mapping to the whole string, which also changes code units of 256
  and beyond and is not a map over single code units (U+0130 becomes two code units).
  It is the parameter \<open>toLowerCase\<close> of \<open>safeName\<close> and of everything that calls it.
\<close>

definition safeName :: "(jsstring \<Rightarrow> jsstring) \<Rightarrow> jsstring \<Rightarrow> jsstring" where
  "safeName toLowerCase name = stripEdgeHyphens (replaceRuns (toLowerCase name))"

text \<open>\<^verbatim>\<open>new Date().toISOString().replace(/[:.]/g, '-')\<close>; the ISO string of the clock,
  which is ASCII, is the argument.\<close>

definition timestamp :: "string \<Rightarrow> string" where
  "timestamp instant = map (\<lambda>c. if c = CHR '':'' \<or> c = CHR ''.'' then CHR ''-'' else c) instant"

definition downloadName ::
  "(jsstring \<Rightarrow> jsstring) \<Rightarrow> jsstring \<Rightarrow> ExportScale \<Rightarrow> string \<Rightarrow> jsstring" where
  "downloadName toLowerCase name scale instant =
     (let s = safeName toLowerCase name
      in (if s = [] then units ''screenshot'' else s)
           @ units ''-'' @ units (scaleDigits scale) @ units ''x-''
           @ units (timestamp instant) @ units ''.png'')"

text \<open>\<^verbatim>\<open>file.name.replace(/\.[^/.]+$/, '')\<close>: the first position where a dot is followed,
  up to the end, by at least one code unit and by none of \<^verbatim>\<open>/\<close> and \<^verbatim>\<open>.\<close>; the name
  is cut there.\<close>

fun stripExtension :: "jsstring \<Rightarrow> jsstring" where
  "stripExtension [] = []"
| "stripExtension (c # cs) =
     (if c = dot \<and> cs \<noteq> [] \<and> list_all (\<lambda>d. d \<noteq> slash \<and> d \<noteq> dot) cs
      then [] else c # stripExtension cs)"

definition startsWith :: "string \<Rightarrow> string \<Rightarrow> bool" where
  "startsWith s p = (take (length p) s = p)"

section \<open>Handlers with effects: ingestion and export\<close>

text \<open>
  A \<^verbatim>\<open>File\<close> is its name and its declared media type. What the handlers do to the
  outside is recorded as a list of effects. \<open>Sys\<close> is the application together with
  what is pending on the event loop: the \<^verbatim>\<open>FileReader\<close>s whose \<^verbatim>\<open>onload\<close> has not fired
  (each with the file its callback closes over) and the \<^verbatim>\<open>toPng\<close> promises that have not
  settled (each with the \<^verbatim>\<open>imageName\<close> and \<^verbatim>\<open>exportScale\<close> its \<^verbatim>\<open>handleExport\<close> closes
  over).

  React keeps the current values of the state cells (\<open>ui\<close>) apart from the page: the
  attributes of the page and the values that its handlers close over are those of the
  render that React committed last (\<open>rendered\<close>). A state update changes \<open>ui\<close> at once
  and the page only at the next commit.
\<close>

record File =
  fileName :: jsstring
  fileType :: string

datatype Effect =
    Alert string
  | ConsoleError string
  | ToPng ExportScale
  | Download jsstring string

record ExportJob =
  jobName :: jsstring
  jobScale :: ExportScale

record Sys =
  ui :: App
  rendered :: App
  reads :: "File list"
  exports :: "ExportJob list"
  effects :: "Effect list"

definition initialSys :: Sys where
  "initialSys =
     \<lparr> ui = initialApp, rendered = initialApp, reads = [], exports = [], effects = [] \<rparr>"

definition liftApp :: "(App \<Rightarrow> App) \<Rightarrow> Sys \<Rightarrow> Sys" where
  "liftApp h w = w\<lparr>ui := h (ui w)\<rparr>"

definition removeAt :: "nat \<Rightarrow> 'a list \<Rightarrow> 'a list" where
  "removeAt k xs = take k xs @ drop (Suc k) xs"

subsection \<open>Image ingestion\<close>

text \<open>\<^verbatim>\<open>readFile\<close> returns at once on a media type that does not start with
  \<^verbatim>\<open>image/\<close>; otherwise it starts a reader. \<open>readerOnload\<close> is the reader's callback.\<close>

definition readFile :: "File \<Rightarrow> Sys \<Rightarrow> Sys" where
  "readFile file w =
     (if \<not> startsWith (fileType file) ''image/'' then w
      else w\<lparr>reads := reads w @ [file]\<rparr>)"

definition readerOnload :: "File \<Rightarrow> string \<Rightarrow> App \<Rightarrow> App" where
  "readerOnload file result a =
     (let friendlyName = stripExtension (fileName file)
      in a\<lparr>imageDataUrl := Some result,
           imageName := (if friendlyName = [] then units ''Screenshot'' else friendlyName)\<rparr>)"

definition handleFileInputChange :: "File option \<Rightarrow> Sys \<Rightarrow> Sys" where
  "handleFileInputChange files0 w =
     (case files0 of None \<Rightarrow> w | Some file \<Rightarrow> readFile file w)"

definition handleDrop :: "File option \<Rightarrow> Sys \<Rightarrow> Sys" where
  "handleDrop files0 w =
     (let w1 = liftApp (\<lambda>a. a\<lparr>isDragging := False\<rparr>) w
      in case files0 of None \<Rightarrow> w1 | Some file \<Rightarrow> readFile file w1)"

definition readerLoads :: "nat \<Rightarrow> string \<Rightarrow> Sys \<Rightarrow> Sys" where
  "readerLoads k result w =
     (if k < length (reads w)
      then w\<lparr>ui := readerOnload (reads w ! k) result (ui w), reads := removeAt k (reads w)\<rparr>
      else w)"

text \<open>The \<^verbatim>\<open>accept\<close> attribute of the hidden file input, as the list of its
  comma-separated media types. Only the browser's file dialog reads it.\<close>

definition acceptAttribute :: "string list" where
  "acceptAttribute = [''image/png'', ''image/jpeg'', ''image/webp'', ''image/svg+xml'']"

subsection \<open>Export\<close>

text \<open>
  \<^verbatim>\<open>handleExport\<close> up to its \<^verbatim>\<open>await\<close>: the guard with its alert, or
  \<^verbatim>\<open>setIsExporting(true)\<close> and the call of \<^verbatim>\<open>toPng\<close>. The rest of the function runs when
  the promise settles: \<open>exportResolved\<close> is the remainder of the \<^verbatim>\<open>try\<close> block,
  \<open>exportRejected\<close> the \<^verbatim>\<open>catch\<close> block, each followed by the \<^verbatim>\<open>finally\<close> block.

  \<open>handleExport\<close> is the function as created by a render of the current state: what it
  reads of \<^verbatim>\<open>imageDataUrl\<close>, \<^verbatim>\<open>imageName\<close> and \<^verbatim>\<open>exportScale\<close> are the current values.
  \<open>handleExportFrom closure\<close> is the function as created by the render of the state
  \<open>closure\<close>: it reads these three from \<open>closure\<close>, reads \<^verbatim>\<open>previewRef.current\<close> when it
  runs, and its \<^verbatim>\<open>setIsExporting(true)\<close> acts on the current state. Neither reads
  \<^verbatim>\<open>isExporting\<close>.
\<close>

definition handleExport :: "Sys \<Rightarrow> Sys" where
  "handleExport w =
     (let a = ui w in
      if \<not> previewRef a \<or> \<not> truthy (imageDataUrl a)
      then w\<lparr>effects := effects w @ [Alert ''Upload a screenshot before exporting.'']\<rparr>
      else w\<lparr>ui := a\<lparr>isExporting := True\<rparr>,
             exports := exports w @ [\<lparr>jobName = imageName a, jobScale = exportScale a\<rparr>],
             effects := effects w @ [ToPng (exportScale a)]\<rparr>)"

definition handleExportFrom :: "App \<Rightarrow> Sys \<Rightarrow> Sys" where
  "handleExportFrom closure w =
     (if \<not> previewRef (ui w) \<or> \<not> truthy (imageDataUrl closure)
      then w\<lparr>effects := effects w @ [Alert ''Upload a screenshot before exporting.'']\<rparr>
      else w\<lparr>ui := (ui w)\<lparr>isExporting := True\<rparr>,
             exports := exports w @
               [\<lparr>jobName = imageName closure, jobScale = exportScale closure\<rparr>],
             effects := effects w @ [ToPng (exportScale closure)]\<rparr>)"

definition exportResolved ::
  "(jsstring \<Rightarrow> jsstring) \<Rightarrow> ExportJob \<Rightarrow> string \<Rightarrow> string \<Rightarrow> Sys \<Rightarrow> Sys" where
  "exportResolved toLowerCase job dataUrl instant w =
     w\<lparr>ui := (ui w)\<lparr>isExporting := False\<rparr>,
       effects := effects w @
         [Download (downloadName toLowerCase (jobName job) (jobScale job) instant) dataUrl]\<rparr>"

definition exportRejected :: "ExportJob \<Rightarrow> Sys \<Rightarrow> Sys" where
  "exportRejected job w =
     w\<lparr>ui := (ui w)\<lparr>isExporting := False\<rparr>,
       effects := effects w @
         [ConsoleError ''Export failed'',
          Alert ''Export failed. Please try again or lower the export size.'']\<rparr>"

definition toPngResolves ::
  "(jsstring \<Rightarrow> jsstring) \<Rightarrow> nat \<Rightarrow> string \<Rightarrow> string \<Rightarrow> Sys \<Rightarrow> Sys" where
  "toPngResolves toLowerCase k dataUrl instant w =
     (if k < length (exports w)
      then exportResolved toLowerCase (exports w ! k) dataUrl instant
             (w\<lparr>exports := removeAt k (exports w)\<rparr>)
      else w)"

definition toPngRejects :: "nat \<Rightarrow> Sys \<Rightarrow> Sys" where
  "toPngRejects k w =
     (if k < length (exports w)
      then exportRejected (exports w ! k) (w\<lparr>exports := removeAt k (exports w)\<rparr>)
      else w)"

subsection \<open>The events of the user interface\<close>

text \<open>
  One constructor for each event that reaches \<^verbatim>\<open>App\<close>, and \<open>Commit\<close> for React committing
  a render of the current state. A click is delivered to the page as it was last
  rendered: it is dropped when the \<^verbatim>\<open>disabled\<close> attribute of its button holds in
  \<open>rendered\<close>, and the handler it runs is the one that \<open>rendered\<close> created. After a
  handler has changed the state, the page is the old one until the next \<open>Commit\<close>; two
  clicks with no \<open>Commit\<close> between them meet the same page. The first argument of
  \<open>fire\<close> and of \<open>run\<close> is the runtime's \<^verbatim>\<open>toLowerCase\<close>.
\<close>

datatype Event =
    ChangeSetting SettingUpdate
  | ClickGradientPreset GradientPreset
  | ClickSolidPreset SolidPreset
  | ClickReset
  | ClickScale ExportScale
  | ClickClear
  | DragOver
  | DragLeave
  | FileInputChange "File option"
  | Drop "File option"
  | ReaderLoads nat string
  | ClickExport
  | ToPngResolves nat string string
  | ToPngRejects nat
  | Commit

fun fire :: "(jsstring \<Rightarrow> jsstring) \<Rightarrow> Event \<Rightarrow> Sys \<Rightarrow> Sys" where
  "fire toLowerCase (ChangeSetting u) w = liftApp (updateSetting u) w"
| "fire toLowerCase (ClickGradientPreset preset) w = liftApp (selectGradientPreset preset) w"
| "fire toLowerCase (ClickSolidPreset preset) w = liftApp (selectSolidPreset preset) w"
| "fire toLowerCase ClickReset w = liftApp resetSettings w"
| "fire toLowerCase (ClickScale option) w = liftApp (setExportScale option) w"
| "fire toLowerCase ClickClear w =
     (if clearDisabled (rendered w) then w else liftApp handleClearImage w)"
| "fire toLowerCase DragOver w = liftApp (handleDragOver (rendered w)) w"
| "fire toLowerCase DragLeave w = liftApp handleDragLeave w"
| "fire toLowerCase (FileInputChange files0) w = handleFileInputChange files0 w"
| "fire toLowerCase (Drop files0) w = handleDrop files0 w"
| "fire toLowerCase (ReaderLoads k result) w = readerLoads k result w"
| "fire toLowerCase ClickExport w =
     (if exportDisabled (rendered w) then w else handleExportFrom (rendered w) w)"
| "fire toLowerCase (ToPngResolves k dataUrl instant) w =
     toPngResolves toLowerCase k dataUrl instant w"
| "fire toLowerCase (ToPngRejects k) w = toPngRejects k w"
| "fire toLowerCase Commit w = w\<lparr>rendered := ui w\<rparr>"

fun run :: "(jsstring \<Rightarrow> jsstring) \<Rightarrow> Event list \<Rightarrow> Sys \<Rightarrow> Sys" where
  "run toLowerCase [] w = w"
| "run toLowerCase (e # es) w = run toLowerCase es (fire toLowerCase e w)"

text \<open>
  \<open>clicksOnFreshRender fresh es\<close>: every click on the export button in \<open>es\<close> comes
  directly after a \<open>Commit\<close> (or first of all, when \<open>fresh\<close> holds), so that it meets
  the page of the current state.
\<close>

fun clicksOnFreshRender :: "bool \<Rightarrow> Event list \<Rightarrow> bool" where
  "clicksOnFreshRender fresh [] = True"
| "clicksOnFreshRender fresh (ClickExport # es) = (fresh \<and> clicksOnFreshRender False es)"
| "clicksOnFreshRender fresh (Commit # es) = clicksOnFreshRender True es"
| "clicksOnFreshRender fresh (e # es) = clicksOnFreshRender False es"

section \<open>The sanitization as the specification words it\<close>

text \<open>
  The specification describes the first segment of the download name in three steps:
  lowercase the name, replace every run of characters outside \<^verbatim>\<open>a-z0-9\<close> by a single
  hyphen, and trim the hyphens at both ends, with \<^verbatim>\<open>screenshot\<close> for an empty result.
  \<open>sanitizeSpec\<close> follows these words: \<open>collapseRuns\<close> reads the name once and
  remembers whether it is inside a run, and \<open>trimHyphens\<close> removes all hyphens at
  either end. It is compared with \<open>safeName\<close>, which follows the two regular
  expressions of the source.
\<close>

fun collapseRuns :: "bool \<Rightarrow> jsstring \<Rightarrow> jsstring" where
  "collapseRuns inRun [] = []"
| "collapseRuns inRun (c # cs) =
     (if isLowerAlnum c then c # collapseRuns False cs
      else if inRun then collapseRuns True cs
      else hyphen # collapseRuns True cs)"

definition trimHyphens :: "jsstring \<Rightarrow> jsstring" where
  "trimHyphens s =
     rev (dropWhile (\<lambda>c. c = hyphen) (rev (dropWhile (\<lambda>c. c = hyphen) s)))"

definition sanitizeSpec :: "(jsstring \<Rightarrow> jsstring) \<Rightarrow> jsstring \<Rightarrow> jsstring" where
  "sanitizeSpec toLowerCase name =
     (let t = trimHyphens (collapseRuns False (toLowerCase name))
      in if t = [] then units ''screenshot'' else t)"

section \<open>Example inputs and the single-flight invariant\<close>

definition examplePng :: File where
  "examplePng = \<lparr> fileName = units ''My Screenshot #1!.png'', fileType = ''image/png'' \<rparr>"

definition exampleGif :: File where
  "exampleGif = \<lparr> fileName = units ''anim.gif'', fileType = ''image/gif'' \<rparr>"

definition exampleText :: File where
  "exampleText = \<lparr> fileName = units ''notes.txt'', fileType = ''text/plain'' \<rparr>"

text \<open>The application after the file dialog delivered \<open>examplePng\<close>, its reader
  finished and React committed the render.\<close>

definition loadedApp :: App where
  "loadedApp =
     initialApp\<lparr>imageDataUrl := Some ''data:image/png;base64,iVBORw0KGgo='',
                imageName := units ''My Screenshot #1!''\<rparr>"

definition loadedSys :: Sys where
  "loadedSys =
     \<lparr> ui = loadedApp, rendered = loadedApp, reads = [], exports = [], effects = [] \<rparr>"

text \<open>
  A lowercasing for the examples. It agrees with \<^verbatim>\<open>String.prototype.toLowerCase\<close> on
  strings of ASCII and Latin-1 code units, of the Kelvin sign U+212A (which becomes
  \<^verbatim>\<open>k\<close>) and of U+0130 (which becomes \<^verbatim>\<open>i\<close> followed by U+0307).
\<close>

definition exampleLowerUnit :: "codeunit \<Rightarrow> jsstring" where
  "exampleLowerUnit c =
     (if (65 \<le> c \<and> c \<le> 90) \<or> (192 \<le> c \<and> c \<le> 222 \<and> c \<noteq> 215) then [c + 32]
      else if c = 8490 then [107]
      else if c = 304 then [105, 775]
      else [c])"

definition exampleLower :: "jsstring \<Rightarrow> jsstring" where
  "exampleLower s = concat (map exampleLowerUnit s)"

text \<open>At most one \<^verbatim>\<open>toPng\<close> promise is pending, and \<open>isExporting\<close> holds exactly while
  one is.\<close>

definition singleFlight :: "Sys \<Rightarrow> bool" where
  "singleFlight w = (length (exports w) \<le> 1 \<and> isExporting (ui w) = (exports w \<noteq> []))"

section \<open>Properties of the style calculator\<close>




subsection \<open>Rounding to binary64\<close>

text \<open>\<open>ilog2\<close> is the binary exponent, rounding is within half a unit in the last place,
  and it is monotone.\<close>

lemma ilog2_bounds:
  assumes "0 < x"
  shows "2 powi (ilog2 x) \<le> x" and "x < 2 powi (ilog2 x + 1)"
proof -
  have "2 powi (ilog2 x) \<le> x \<and> x < 2 powi (ilog2 x + 1)"
  proof (cases "1 \<le> x")
    case True
    define n where "n = \<lfloor>x\<rfloor>"
    have n: "0 < n" using True by (simp add: n_def)
    define b where "b = bitlen n"
    from bitlen_bounds [OF n] have lo: "2 ^ nat (b - 1) \<le> n" and hi: "n < 2 ^ nat b"
      by (simp_all add: b_def)
    have "b \<noteq> 0" using n by (simp add: b_def bitlen_eq_zero_iff)
    moreover have "0 \<le> b" by (simp add: b_def bitlen_nonneg)
    ultimately have b1: "1 \<le> b" by linarith
    have "real_of_int (2 ^ nat (b - 1)) \<le> real_of_int n" using lo by linarith
    also have "\<dots> \<le> x" by (simp add: n_def)
    finally have l: "2 powi (b - 1) \<le> x" using b1 by (simp add: power_int_def)
    have "n + 1 \<le> 2 ^ nat b" using hi by simp
    then have "real_of_int (n + 1) \<le> real_of_int (2 ^ nat b)" by linarith
    moreover have "x < real_of_int (n + 1)" unfolding n_def by linarith
    ultimately have h: "x < 2 powi b" using b1 by (simp add: power_int_def)
    from l h True show ?thesis by (simp add: ilog2_def n_def b_def)
  next
    case False
    define y where "y = 1 / x"
    have y1: "1 < y" using False assms by (simp add: y_def)
    define n where "n = \<lceil>y\<rceil> - 1"
    have n: "0 < n" using y1 unfolding n_def by linarith
    define k where "k = bitlen n"
    from bitlen_bounds [OF n] have lo: "2 ^ nat (k - 1) \<le> n" and hi: "n < 2 ^ nat k"
      by (simp_all add: k_def)
    have "k \<noteq> 0" using n by (simp add: k_def bitlen_eq_zero_iff)
    moreover have "0 \<le> k" by (simp add: k_def bitlen_nonneg)
    ultimately have k1: "1 \<le> k" by linarith
    have "n + 1 \<le> 2 ^ nat k" using hi by simp
    then have "real_of_int (n + 1) \<le> real_of_int (2 ^ nat k)" by linarith
    moreover have "y \<le> real_of_int (n + 1)" unfolding n_def by simp
    ultimately have "y \<le> 2 ^ nat k" by simp
    then have "1 / 2 ^ nat k \<le> x" using assms
      by (simp add: y_def field_simps)
    then have l: "2 powi (- k) \<le> x" using k1
      by (simp add: power_int_def field_simps)
    have "real_of_int (2 ^ nat (k - 1)) \<le> real_of_int n" using lo by linarith
    moreover have "real_of_int n < y" unfolding n_def by linarith
    ultimately have "real_of_int (2 ^ nat (k - 1)) < y" by linarith
    then have "2 ^ nat (k - 1) < y" by simp
    then have xlt: "x < 1 / 2 ^ nat (k - 1)" using assms
      by (simp add: y_def field_simps)
    have "(2::real) powi (- k + 1) = 2 powi (- (k - 1))" by simp
    also have "\<dots> = inverse (2 powi (k - 1))" by (rule power_int_minus)
    also have "\<dots> = inverse (2 ^ nat (k - 1))" using k1 by (simp add: power_int_def)
    finally have eq: "(2::real) powi (- k + 1) = 1 / 2 ^ nat (k - 1)"
      by (simp add: inverse_eq_divide)
    have h: "x < 2 powi (- k + 1)" unfolding eq by (rule xlt)
    from l h False show ?thesis by (simp add: ilog2_def y_def n_def k_def)
  qed
  then show "2 powi (ilog2 x) \<le> x" and "x < 2 powi (ilog2 x + 1)" by simp_all
qed

lemma ilog2_less:
  assumes "0 < x" and "x < 2 powi k"
  shows "ilog2 x < k"
proof (rule ccontr)
  assume "\<not> ilog2 x < k"
  then have "(2::real) powi k \<le> 2 powi (ilog2 x)"
    by (intro power_int_increasing) auto
  with ilog2_bounds(1) [OF assms(1)] assms(2) show False by linarith
qed

lemma ilog2_mono:
  assumes "0 < x" and "x \<le> y"
  shows "ilog2 x \<le> ilog2 y"
proof (rule ccontr)
  assume "\<not> ilog2 x \<le> ilog2 y"
  then have "(2::real) powi (ilog2 y + 1) \<le> 2 powi (ilog2 x)"
    by (intro power_int_increasing) auto
  moreover have "0 < y" using assms by linarith
  ultimately show False
    using ilog2_bounds(1) [OF assms(1)] ilog2_bounds(2) [of y] assms(2) by linarith
qed

lemma roundTiesToEven_near: "\<bar>real_of_int (roundTiesToEven q) - q\<bar> \<le> 1 / 2"
  unfolding roundTiesToEven_def Let_def by auto

lemma roundTiesToEven_of_int [simp]: "roundTiesToEven (of_int n) = n"
  by (simp add: roundTiesToEven_def)

lemma roundTiesToEven_mono:
  assumes "q \<le> q'"
  shows "roundTiesToEven q \<le> roundTiesToEven q'"
proof (cases "\<lfloor>q\<rfloor> = \<lfloor>q'\<rfloor>")
  case True
  with assms show ?thesis
    by (auto simp: roundTiesToEven_def Let_def)
next
  case False
  with assms have "\<lfloor>q\<rfloor> + 1 \<le> \<lfloor>q'\<rfloor>"
    using floor_mono [OF assms] by linarith
  moreover have "roundTiesToEven q \<le> \<lfloor>q\<rfloor> + 1"
    by (auto simp: roundTiesToEven_def Let_def)
  moreover have "\<lfloor>q'\<rfloor> \<le> roundTiesToEven q'"
    by (auto simp: roundTiesToEven_def Let_def)
  ultimately show ?thesis by linarith
qed

lemma ulp_pos [simp]: "0 < ulp x"
  by (simp add: ulp_def)

lemma ulp_nonneg [simp]: "0 \<le> ulp x"
  using ulp_pos [of x] by linarith

lemma ulp_nonzero [simp]: "ulp x \<noteq> 0"
  using ulp_pos [of x] by linarith

lemma fl_pos_eq: "0 < x \<Longrightarrow> fl x = of_int (roundTiesToEven (x / ulp x)) * ulp x"
  by (simp add: fl_def)

lemma fl_zero [simp]: "fl 0 = 0"
  by (simp add: fl_def)

lemma fl_half_ulp:
  assumes "0 < x"
  shows "\<bar>fl x - x\<bar> \<le> ulp x / 2"
proof -
  have "fl x - x = (of_int (roundTiesToEven (x / ulp x)) - x / ulp x) * ulp x"
    using assms by (simp add: fl_pos_eq field_simps)
  then have "\<bar>fl x - x\<bar> = \<bar>of_int (roundTiesToEven (x / ulp x)) - x / ulp x\<bar> * ulp x"
    by (simp add: abs_mult)
  also have "\<dots> \<le> 1 / 2 * ulp x"
    by (intro mult_right_mono roundTiesToEven_near) simp
  finally show ?thesis by simp
qed

lemma fl_error:
  assumes "0 \<le> x" and "x < 2 powi k" and "- 1021 \<le> k"
  shows "\<bar>fl x - x\<bar> \<le> 2 powi (k - 54)"
proof (cases "x = 0")
  case True
  then show ?thesis by simp
next
  case False
  with assms have pos: "0 < x" by simp
  have "ilog2 x < k" using pos assms(2) by (rule ilog2_less)
  then have "max (ilog2 \<bar>x\<bar>) (- 1022) - 52 \<le> k - 53" using assms(3) pos by simp
  then have "ulp x \<le> 2 powi (k - 53)"
    unfolding ulp_def by (intro power_int_increasing) auto
  moreover have "(2::real) powi (k - 53) = 2 * 2 powi (k - 54)"
    using power_int_add [of "2::real" 1 "k - 54"] by simp
  ultimately show ?thesis using fl_half_ulp [OF pos] by linarith
qed

lemma fl_nonneg: "0 \<le> x \<Longrightarrow> 0 \<le> fl x"
proof (cases "x = 0")
  case False
  assume "0 \<le> x"
  with False have pos: "0 < x" by simp
  have "roundTiesToEven 0 \<le> roundTiesToEven (x / ulp x)"
    using pos by (intro roundTiesToEven_mono) simp
  then have "0 \<le> roundTiesToEven (x / ulp x)"
    using roundTiesToEven_of_int [of 0] by simp
  then show ?thesis using pos by (simp add: fl_pos_eq)
qed simp

lemma fl_mono:
  assumes "0 \<le> x" and "x \<le> y"
  shows "fl x \<le> fl y"
proof (cases "x = 0")
  case True
  with assms show ?thesis using fl_nonneg [of y] by simp
next
  case False
  with assms have px: "0 < x" and py: "0 < y" by simp_all
  define ex where "ex = max (ilog2 x) (- 1022)"
  define ey where "ey = max (ilog2 y) (- 1022)"
  have ux: "ulp x = 2 powi (ex - 52)" and uy: "ulp y = 2 powi (ey - 52)"
    using px py by (simp_all add: ulp_def ex_def ey_def)
  have le: "ex \<le> ey" using ilog2_mono [OF px assms(2)] by (simp add: ex_def ey_def)
  show ?thesis
  proof (cases "ex = ey")
    case True
    then have "ulp x = ulp y" by (simp add: ux uy)
    moreover have "roundTiesToEven (x / ulp y) \<le> roundTiesToEven (y / ulp y)"
      using assms(2) by (intro roundTiesToEven_mono divide_right_mono) simp_all
    ultimately show ?thesis using px py
      by (simp add: fl_pos_eq)
  next
    case False
    with le have lt: "ex < ey" by simp
    then have ey: "ey = ilog2 y" by (auto simp: ex_def ey_def)
    have p53: "(2::real) powi (ex + 1) = 2 ^ 53 * 2 powi (ex - 52)"
      using power_int_add [of "2::real" 53 "ex - 52"] by (simp add: add.commute)
    have p52: "(2::real) powi ey = 2 ^ 52 * 2 powi (ey - 52)"
      using power_int_add [of "2::real" 52 "ey - 52"] by simp
    have "x < 2 powi (ilog2 x + 1)" using px by (rule ilog2_bounds)
    also have "\<dots> \<le> 2 powi (ex + 1)"
      by (intro power_int_increasing) (auto simp: ex_def)
    finally have "x < 2 ^ 53 * ulp x" by (simp only: p53 ux)
    then have "x / ulp x \<le> 2 ^ 53"
      using ulp_pos [of x] by (simp add: pos_divide_le_eq)
    then have "x / ulp x \<le> real_of_int (2 ^ 53)" by simp
    then have "roundTiesToEven (x / ulp x) \<le> roundTiesToEven (real_of_int (2 ^ 53))"
      by (rule roundTiesToEven_mono)
    then have "roundTiesToEven (x / ulp x) \<le> 2 ^ 53"
      by (simp only: roundTiesToEven_of_int)
    then have "real_of_int (roundTiesToEven (x / ulp x)) \<le> real_of_int (2 ^ 53)"
      by (simp only: of_int_le_iff)
    then have "real_of_int (roundTiesToEven (x / ulp x)) \<le> 2 ^ 53" by simp
    then have "fl x \<le> 2 ^ 53 * ulp x"
      using px by (simp add: fl_pos_eq)
    then have a: "fl x \<le> 2 powi (ex + 1)" by (simp add: ux p53)
    have b: "(2::real) powi (ex + 1) \<le> 2 powi ey"
      using lt by (intro power_int_increasing) auto
    have "2 powi ey \<le> y" using ilog2_bounds(1) [OF py] by (simp add: ey)
    then have "2 ^ 52 * ulp y \<le> y" by (simp only: p52 uy)
    then have "2 ^ 52 \<le> y / ulp y"
      using ulp_pos [of y] by (simp add: pos_le_divide_eq)
    then have "real_of_int (2 ^ 52) \<le> y / ulp y" by simp
    then have "roundTiesToEven (real_of_int (2 ^ 52)) \<le> roundTiesToEven (y / ulp y)"
      by (rule roundTiesToEven_mono)
    then have "2 ^ 52 \<le> roundTiesToEven (y / ulp y)"
      by (simp only: roundTiesToEven_of_int)
    then have "real_of_int (2 ^ 52) \<le> real_of_int (roundTiesToEven (y / ulp y))"
      by (simp only: of_int_le_iff)
    then have "2 ^ 52 \<le> real_of_int (roundTiesToEven (y / ulp y))" by simp
    then have "2 ^ 52 * ulp y \<le> fl y"
      using py by (simp add: fl_pos_eq)
    then have c: "2 powi ey \<le> fl y" by (simp add: uy p52)
    from a b c show ?thesis by linarith
  qed
qed

text \<open>The binary64 values of the literals of \<open>noiseOpacity\<close>, and the product at
  the threshold \<open>0.3 / 0.0035 = 600 / 7\<close>.\<close>

lemma fl_one: "fl 1 = 1"
  by code_simp

lemma fl_035: "fl 0.35 = 3152519739159347 / 9007199254740992"
  by code_simp

lemma fl_03: "fl 0.3 = 5404319552844595 / 18014398509481984"
  by code_simp

lemma fl_threshold: "fl (fl (6 / 7) * fl 0.35) = fl 0.3"
  by code_simp

lemma abs_min_diff_le:
  fixes a b c d e :: real
  assumes "\<bar>a - c\<bar> \<le> e" and "\<bar>b - d\<bar> \<le> e"
  shows "\<bar>min a b - min c d\<bar> \<le> e"
  using assms by linarith

lemma fl_unit_error:
  assumes "0 \<le> t" and "t \<le> 1"
  shows "\<bar>fl t - t\<bar> \<le> 1 / 2 ^ 54" and "0 \<le> fl t" and "fl t \<le> 1"
proof -
  show "\<bar>fl t - t\<bar> \<le> 1 / 2 ^ 54"
  proof (cases "t = 1")
    case True
    then show ?thesis by (simp add: fl_one)
  next
    case False
    with assms have "t < 2 powi 0" by simp
    from fl_error [OF assms(1) this] show ?thesis by simp
  qed
  show "0 \<le> fl t" using assms(1) by (rule fl_nonneg)
  show "fl t \<le> 1" using fl_mono [OF assms] by (simp add: fl_one)
qed

lemma noise_expression_error:
  assumes "0 \<le> n" and "n \<le> 100"
  shows "\<bar>min (fl (fl (n / 100) * fl 0.35)) (fl 0.3) - min (n * 0.0035) 0.3\<bar> \<le> 1 / 2 ^ 53"
proof -
  define t where "t = n / 100"
  define a where "a = fl t"
  define p where "p = a * fl 0.35"
  have t: "0 \<le> t" "t \<le> 1" using assms by (simp_all add: t_def)
  note a = fl_unit_error [OF t, folded a_def]
  have p_eq: "p = a * (3152519739159347 / 9007199254740992)"
    by (simp only: p_def fl_035)
  have p0: "0 \<le> p" and p1: "p < 2 powi (- 1)"
    using a(2,3) by (simp_all add: p_eq)
  define r where "r = fl p"
  have "\<bar>fl p - p\<bar> \<le> 2 powi (- 1 - 54)"
    using p0 p1 by (rule fl_error) simp
  then have r: "\<bar>r - a * (3152519739159347 / 9007199254740992)\<bar> \<le> 1 / 36028797018963968"
    by (simp add: r_def p_eq)
  have a': "\<bar>a - t\<bar> \<le> 1 / 18014398509481984" using a(1) by simp
  have "\<bar>r - 7 / 20 * t\<bar> \<le> 1 / 9007199254740992"
    using a' t r by linarith
  moreover have "\<bar>5404319552844595 / 18014398509481984 - 3 / 10\<bar> \<le> (1 / 9007199254740992 :: real)"
    by simp
  ultimately have "\<bar>min r (5404319552844595 / 18014398509481984) - min (7 / 20 * t) (3 / 10)\<bar>
      \<le> 1 / 9007199254740992"
    by (rule abs_min_diff_le)
  moreover have "min (fl (fl (n / 100) * fl 0.35)) (fl 0.3) = min r (5404319552844595 / 18014398509481984)"
    by (simp only: r_def p_def a_def t_def fl_03)
  moreover have "min (n * 0.0035) 0.3 = min (7 / 20 * t) (3 / 10)" by (simp add: t_def)
  ultimately show ?thesis by simp
qed

lemma noise_expression_cap:
  assumes "0.3 / 0.0035 \<le> n"
  shows "min (fl (fl (n / 100) * fl 0.35)) (fl 0.3) = fl 0.3"
proof -
  have "6 / 7 \<le> n / 100" using assms by simp
  then have "fl (6 / 7) \<le> fl (n / 100)" by (intro fl_mono) simp_all
  moreover have "0 \<le> fl 0.35" unfolding fl_035 by simp
  ultimately have "fl (6 / 7) * fl 0.35 \<le> fl (n / 100) * fl 0.35"
    by (rule mult_right_mono)
  moreover have "0 \<le> fl (6 / 7) * fl 0.35"
    by (intro mult_nonneg_nonneg fl_nonneg) simp_all
  ultimately have "fl (fl (6 / 7) * fl 0.35) \<le> fl (fl (n / 100) * fl 0.35)"
    by (intro fl_mono)
  then have "fl 0.3 \<le> fl (fl (n / 100) * fl 0.35)" by (simp only: fl_threshold)
  then show ?thesis by (rule min_absorb2)
qed

text \<open>
  Claim C7 says that \<open>noiseOpacity\<close> equals \<open>noise * 0.0035\<close> capped at \<open>0.3\<close>. The
  source computes \<^verbatim>\<open>noise / 100 * 0.35\<close> in binary64, and at the default \<open>noise = 12\<close>
  the result is \<open>3026418949592973 / 2 ^ 56\<close> (printed \<^verbatim>\<open>0.041999999999999996\<close>). That is
  neither the real number \<open>12 * 0.0035 = 0.042\<close> nor the binary64 value of the
  expression \<^verbatim>\<open>12 * 0.0035\<close>.
\<close>

theorem noiseOpacity_exact_counterexample:
  "noise DEFAULT_SETTINGS = 12 \<and>
   noiseOpacity DEFAULT_SETTINGS = 3026418949592973 / 72057594037927936 \<and>
   noiseOpacity DEFAULT_SETTINGS \<noteq> min (noise DEFAULT_SETTINGS * 0.0035) 0.3 \<and>
   noiseOpacity DEFAULT_SETTINGS \<noteq> min (fl (noise DEFAULT_SETTINGS * fl 0.0035)) (fl 0.3)"
  by code_simp

text \<open>
  Claim C7, amended. For every noise value between 0 and 100, \<open>noiseOpacity\<close> is
  \<^verbatim>\<open>min(noise / 100 * 0.35, 0.3)\<close> evaluated in binary64. It differs from
  \<open>noise * 0.0035\<close> capped at \<open>0.3\<close> by at most \<open>1 / 2 ^ 53\<close>, and for every noise from
  \<open>0.3 / 0.0035\<close> on, a value between 85.7 and 85.8, it is the cap: the binary64 value
  of \<^verbatim>\<open>0.3\<close>, which is \<open>5404319552844595 / 2 ^ 54\<close>.
\<close>

theorem noiseOpacity_binary64:
  "0 \<le> noise s \<Longrightarrow> noise s \<le> 100 \<Longrightarrow>
     noiseOpacity s = min (fl (fl (noise s / 100) * fl 0.35)) (fl 0.3) \<and>
     \<bar>noiseOpacity s - min (noise s * 0.0035) 0.3\<bar> \<le> 1 / 2 ^ 53 \<and>
     (0.3 / 0.0035 \<le> noise s \<longrightarrow> noiseOpacity s = fl 0.3) \<and>
     fl 0.3 = 5404319552844595 / 2 ^ 54 \<and>
     (85.7 :: real) < 0.3 / 0.0035 \<and> (0.3 / 0.0035 :: real) < 85.8"
proof -
  assume range: "0 \<le> noise s" "noise s \<le> 100"
  have def: "noiseOpacity s = min (fl (fl (noise s / 100) * fl 0.35)) (fl 0.3)"
    by (simp only: noiseOpacity_def)
  have err: "\<bar>noiseOpacity s - min (noise s * 0.0035) 0.3\<bar> \<le> 1 / 2 ^ 53"
    unfolding def using range by (rule noise_expression_error)
  have cap: "noiseOpacity s = fl 0.3" if "0.3 / 0.0035 \<le> noise s"
    unfolding def using that by (rule noise_expression_cap)
  have c3: "fl 0.3 = 5404319552844595 / 2 ^ 54"
    unfolding fl_03 by simp
  have thr: "(85.7 :: real) < 0.3 / 0.0035 \<and> (0.3 / 0.0035 :: real) < 85.8"
    by simp
  from def err cap c3 thr show ?thesis by blast
qed

theorem noiseOpacity_binary64_witness:
  "\<bar>noiseOpacity (DEFAULT_SETTINGS\<lparr>noise := 12\<rparr>) - 0.042\<bar> \<le> 1 / 2 ^ 53 \<and>
   noiseOpacity (DEFAULT_SETTINGS\<lparr>noise := 86\<rparr>) = 5404319552844595 / 2 ^ 54 \<and>
   noiseOpacity (DEFAULT_SETTINGS\<lparr>noise := 100\<rparr>) = 5404319552844595 / 2 ^ 54"
proof -
  have r12: "0 \<le> noise (DEFAULT_SETTINGS\<lparr>noise := 12\<rparr>)"
    "noise (DEFAULT_SETTINGS\<lparr>noise := 12\<rparr>) \<le> 100" by simp_all
  have r86: "0 \<le> noise (DEFAULT_SETTINGS\<lparr>noise := 86\<rparr>)"
    "noise (DEFAULT_SETTINGS\<lparr>noise := 86\<rparr>) \<le> 100" by simp_all
  have r100: "0 \<le> noise (DEFAULT_SETTINGS\<lparr>noise := 100\<rparr>)"
    "noise (DEFAULT_SETTINGS\<lparr>noise := 100\<rparr>) \<le> 100" by simp_all
  have a: "\<bar>noiseOpacity (DEFAULT_SETTINGS\<lparr>noise := 12\<rparr>) - 0.042\<bar> \<le> 1 / 2 ^ 53"
    using noiseOpacity_binary64 [OF r12, THEN conjunct2, THEN conjunct1] by simp
  have b: "noiseOpacity (DEFAULT_SETTINGS\<lparr>noise := 86\<rparr>) = 5404319552844595 / 2 ^ 54"
    using noiseOpacity_binary64 [OF r86, THEN conjunct2, THEN conjunct2] by simp
  have c: "noiseOpacity (DEFAULT_SETTINGS\<lparr>noise := 100\<rparr>) = 5404319552844595 / 2 ^ 54"
    using noiseOpacity_binary64 [OF r100, THEN conjunct2, THEN conjunct2] by simp
  from a b c show ?thesis by blast
qed

section \<open>Properties of the settings model\<close>

text \<open>
  Claim C8. Whatever the settings were, after \<open>resetSettings\<close> the settings record is
  equal, field by field, to the constant \<open>DEFAULT_SETTINGS\<close>; so it is after a click on
  the reset button.
\<close>

theorem resetSettings_yields_default:
  "settings (resetSettings a) = DEFAULT_SETTINGS \<and>
   settings (ui (fire toLowerCase ClickReset w)) = DEFAULT_SETTINGS"
  by (simp add: resetSettings_def liftApp_def)

text \<open>
  Claim C10. The reset action changes the settings record only: the loaded image, its
  display name, the export scale and the flag \<open>isExporting\<close> keep their values, and so
  do the dragging flag, the preview reference, the pending reads and exports and the
  effects.
\<close>

theorem resetSettings_frame:
  "imageDataUrl (resetSettings a) = imageDataUrl a \<and>
   imageName (resetSettings a) = imageName a \<and>
   exportScale (resetSettings a) = exportScale a \<and>
   isExporting (resetSettings a) = isExporting a \<and>
   isDragging (resetSettings a) = isDragging a \<and>
   previewRef (resetSettings a) = previewRef a \<and>
   reads (fire toLowerCase ClickReset w) = reads w \<and>
   exports (fire toLowerCase ClickReset w) = exports w \<and>
   effects (fire toLowerCase ClickReset w) = effects w \<and>
   ui (fire toLowerCase ClickReset w) = resetSettings (ui w)"
  by (simp add: resetSettings_def liftApp_def)

text \<open>
  Claim C6. Selecting a gradient preset sets \<open>backgroundType\<close> to \<open>gradient\<close> and
  \<open>gradientFrom\<close>, \<open>gradientTo\<close>, \<open>gradientAngle\<close> to the preset's values, and selecting a
  solid preset sets \<open>backgroundType\<close> to \<open>solid\<close> and \<open>backgroundColor\<close> to the preset's
  colour; every other field of the settings and of the application keeps its value.
  The click is one event with one state update: the state after it is the state before
  it with all of the preset applied.
\<close>

theorem preset_selection_atomic:
  "selectGradientPreset g a =
     a\<lparr>settings :=
        \<lparr> borderRadius = borderRadius (settings a),
          padding = padding (settings a),
          dropShadow = dropShadow (settings a),
          backgroundType = gradient,
          gradientFrom = presetFrom g,
          gradientTo = presetTo g,
          gradientAngle = presetAngle g,
          backgroundColor = backgroundColor (settings a),
          showWindowChrome = showWindowChrome (settings a),
          windowAccent = windowAccent (settings a),
          noise = noise (settings a),
          vignette = vignette (settings a) \<rparr>\<rparr> \<and>
   selectSolidPreset p a =
     a\<lparr>settings :=
        \<lparr> borderRadius = borderRadius (settings a),
          padding = padding (settings a),
          dropShadow = dropShadow (settings a),
          backgroundType = solid,
          gradientFrom = gradientFrom (settings a),
          gradientTo = gradientTo (settings a),
          gradientAngle = gradientAngle (settings a),
          backgroundColor = presetColor p,
          showWindowChrome = showWindowChrome (settings a),
          windowAccent = windowAccent (settings a),
          noise = noise (settings a),
          vignette = vignette (settings a) \<rparr>\<rparr> \<and>
   run toLowerCase [ClickGradientPreset g] w = w\<lparr>ui := selectGradientPreset g (ui w)\<rparr> \<and>
   run toLowerCase [ClickSolidPreset p] w = w\<lparr>ui := selectSolidPreset p (ui w)\<rparr>"
  by (simp add: selectGradientPreset_def selectSolidPreset_def liftApp_def)

section \<open>Properties of image ingestion\<close>

lemma units_nonempty [simp]: "(units s = []) = (s = [])"
  by (simp add: units_def)

lemma friendlyName_examplePng:
  "stripExtension (units ''My Screenshot #1!.png'') = units ''My Screenshot #1!''"
  by code_simp

lemma friendlyName_exampleGif: "stripExtension (units ''anim.gif'') = units ''anim''"
  by code_simp

lemma loadedSys_run:
  "run toLowerCase
     [FileInputChange (Some examplePng), ReaderLoads 0 ''data:image/png;base64,iVBORw0KGgo='',
      Commit] initialSys = loadedSys"
  by (simp add: loadedSys_def loadedApp_def initialSys_def handleFileInputChange_def readFile_def
      startsWith_def examplePng_def readerLoads_def readerOnload_def removeAt_def
      friendlyName_examplePng)

text \<open>
  Claim C4. A file whose declared media type does not begin with \<^verbatim>\<open>image/\<close> is rejected
  silently. \<open>readFile\<close> and the handler of the file dialog leave the whole state as it
  was; the drop handler, which first clears the dragging flag, leaves the settings, the
  loaded image and its display name as they were. No reader is started, so nothing
  changes later either, and no effect reaches the user.
\<close>

theorem readFile_rejects_other_media:
  "\<not> startsWith (fileType file) ''image/'' \<Longrightarrow>
     readFile file w = w \<and>
     handleFileInputChange (Some file) w = w \<and>
     settings (ui (handleDrop (Some file) w)) = settings (ui w) \<and>
     imageDataUrl (ui (handleDrop (Some file) w)) = imageDataUrl (ui w) \<and>
     imageName (ui (handleDrop (Some file) w)) = imageName (ui w) \<and>
     reads (handleDrop (Some file) w) = reads w \<and>
     exports (handleDrop (Some file) w) = exports w \<and>
     effects (handleDrop (Some file) w) = effects w"
  by (simp add: readFile_def handleFileInputChange_def handleDrop_def liftApp_def Let_def)

theorem readFile_rejects_other_media_witness:
  "readFile exampleText loadedSys = loadedSys \<and>
   handleFileInputChange (Some exampleText) loadedSys = loadedSys \<and>
   imageDataUrl (ui (handleDrop (Some exampleText) loadedSys)) =
     Some ''data:image/png;base64,iVBORw0KGgo='' \<and>
   imageName (ui (handleDrop (Some exampleText) loadedSys)) = units ''My Screenshot #1!'' \<and>
   settings (ui (handleDrop (Some exampleText) loadedSys)) = DEFAULT_SETTINGS"
proof -
  have h: "\<not> startsWith (fileType exampleText) ''image/''"
    by (simp add: startsWith_def exampleText_def)
  show ?thesis
    using readFile_rejects_other_media [OF h, of loadedSys]
    by (simp add: loadedSys_def loadedApp_def initialApp_def)
qed

text \<open>
  Claim C9 says that exactly the four media types of the \<^verbatim>\<open>accept\<close> attribute are
  accepted. A dropped file of type \<^verbatim>\<open>image/gif\<close>, which is not in that list, starts a
  reader, and when the reader finishes it becomes the loaded image.
\<close>

theorem accept_list_counterexample:
  "fileType exampleGif \<notin> set acceptAttribute \<and>
   reads (handleDrop (Some exampleGif) initialSys) = [exampleGif] \<and>
   imageDataUrl (ui (run exampleLower
       [Drop (Some exampleGif), ReaderLoads 0 ''data:image/gif;base64,R0lGODlh''] initialSys))
     = Some ''data:image/gif;base64,R0lGODlh'' \<and>
   imageName (ui (run exampleLower
       [Drop (Some exampleGif), ReaderLoads 0 ''data:image/gif;base64,R0lGODlh''] initialSys))
     = units ''anim''"
  by (simp add: exampleGif_def acceptAttribute_def handleDrop_def readFile_def startsWith_def
      initialSys_def liftApp_def readerLoads_def readerOnload_def removeAt_def
      friendlyName_exampleGif)

text \<open>
  Claim C9, amended. The file dialog and the drop handler both pass the file to
  \<open>readFile\<close>, which accepts every file whose media type begins with \<^verbatim>\<open>image/\<close> (a
  reader is started, and its result becomes the loaded image) and ignores every other
  file without any effect. The four media types of the \<^verbatim>\<open>accept\<close> attribute all begin
  with \<^verbatim>\<open>image/\<close>.
\<close>

theorem ingestion_by_image_prefix:
  "(startsWith (fileType file) ''image/'' \<longrightarrow>
      readFile file w = w\<lparr>reads := reads w @ [file]\<rparr> \<and>
      imageDataUrl (readerOnload file result a) = Some result) \<and>
   (\<not> startsWith (fileType file) ''image/'' \<longrightarrow>
      readFile file w = w) \<and>
   handleFileInputChange (Some file) w = readFile file w \<and>
   handleDrop (Some file) w = readFile file (liftApp (\<lambda>a. a\<lparr>isDragging := False\<rparr>) w) \<and>
   list_all (\<lambda>t. startsWith t ''image/'') acceptAttribute"
  by (simp add: readFile_def readerOnload_def handleFileInputChange_def handleDrop_def
      Let_def acceptAttribute_def startsWith_def)

theorem ingestion_by_image_prefix_witness:
  "readFile exampleGif initialSys = initialSys\<lparr>reads := [exampleGif]\<rparr> \<and>
   readFile examplePng initialSys = initialSys\<lparr>reads := [examplePng]\<rparr> \<and>
   readFile exampleText initialSys = initialSys"
proof -
  have g: "startsWith (fileType exampleGif) ''image/''"
    by (simp add: startsWith_def exampleGif_def)
  have p: "startsWith (fileType examplePng) ''image/''"
    by (simp add: startsWith_def examplePng_def)
  have t: "\<not> startsWith (fileType exampleText) ''image/''"
    by (simp add: startsWith_def exampleText_def)
  show ?thesis
    using g p t ingestion_by_image_prefix [of exampleGif initialSys]
      ingestion_by_image_prefix [of examplePng initialSys]
      ingestion_by_image_prefix [of exampleText initialSys]
    by (simp add: initialSys_def)
qed

section \<open>Properties of the export pipeline\<close>

text \<open>
  Claim C3. For each of the three export scales, \<open>handleExport\<close> without a loaded
  image shows the alert \<^verbatim>\<open>Upload a screenshot before exporting.\<close> and returns: the
  application state is unchanged, no \<^verbatim>\<open>toPng\<close> call is made or left pending, and no
  download is triggered. The export button rendered from that state is disabled.
\<close>

theorem handleExport_without_image:
  "\<not> truthy (imageDataUrl (ui w)) \<Longrightarrow>
     ui (handleExport (liftApp (setExportScale scale) w)) = ui (liftApp (setExportScale scale) w) \<and>
     exports (handleExport (liftApp (setExportScale scale) w)) = exports w \<and>
     reads (handleExport (liftApp (setExportScale scale) w)) = reads w \<and>
     effects (handleExport (liftApp (setExportScale scale) w)) =
       effects w @ [Alert ''Upload a screenshot before exporting.''] \<and>
     exportDisabled (ui (liftApp (setExportScale scale) w))"
  by (simp add: handleExport_def liftApp_def setExportScale_def exportDisabled_def)

theorem handleExport_without_image_witness:
  "effects (handleExport (liftApp (setExportScale Scale1) initialSys)) =
     [Alert ''Upload a screenshot before exporting.''] \<and>
   effects (handleExport (liftApp (setExportScale Scale2) initialSys)) =
     [Alert ''Upload a screenshot before exporting.''] \<and>
   effects (handleExport (liftApp (setExportScale Scale3) initialSys)) =
     [Alert ''Upload a screenshot before exporting.''] \<and>
   exports (handleExport (liftApp (setExportScale Scale3) initialSys)) = []"
proof -
  have h: "\<not> truthy (imageDataUrl (ui initialSys))"
    by (simp add: truthy_def initialSys_def initialApp_def)
  show ?thesis
    using handleExport_without_image [OF h, of Scale1]
      handleExport_without_image [OF h, of Scale2]
      handleExport_without_image [OF h, of Scale3]
    by (simp add: initialSys_def)
qed

text \<open>
  Claim C2 says that two invocations of the export never overlap, also when they are
  made programmatically. \<open>handleExport\<close> does not read \<open>isExporting\<close>: invoked a second
  time while the first \<^verbatim>\<open>toPng\<close> promise is pending, it calls \<^verbatim>\<open>toPng\<close> again, and two
  snapshots are in flight.
\<close>

theorem programmatic_export_counterexample:
  "isExporting (ui (handleExport loadedSys)) \<and>
   exports (handleExport loadedSys) =
     [\<lparr>jobName = units ''My Screenshot #1!'', jobScale = Scale2\<rparr>] \<and>
   exports (handleExport (handleExport loadedSys)) =
     [\<lparr>jobName = units ''My Screenshot #1!'', jobScale = Scale2\<rparr>,
      \<lparr>jobName = units ''My Screenshot #1!'', jobScale = Scale2\<rparr>] \<and>
   effects (handleExport (handleExport loadedSys)) = [ToPng Scale2, ToPng Scale2]"
  by (simp add: loadedSys_def loadedApp_def handleExport_def initialApp_def truthy_def)

text \<open>
  The handler that a render creates is \<open>handleExport\<close> on the state of that render.
  Two clicks on the export button that React delivers without a commit between them
  both meet the enabled button and both call \<^verbatim>\<open>toPng\<close>; with a commit between them the
  second click meets the disabled button.
\<close>

lemma handleExportFrom_current: "handleExportFrom (ui w) w = handleExport w"
  by (simp add: handleExportFrom_def handleExport_def Let_def)

lemma clicks_without_commit:
  "exports (run toLowerCase [ClickExport, ClickExport] loadedSys) =
     [\<lparr>jobName = units ''My Screenshot #1!'', jobScale = Scale2\<rparr>,
      \<lparr>jobName = units ''My Screenshot #1!'', jobScale = Scale2\<rparr>] \<and>
   exports (run toLowerCase [ClickExport, Commit, ClickExport] loadedSys) =
     [\<lparr>jobName = units ''My Screenshot #1!'', jobScale = Scale2\<rparr>]"
  by (simp add: loadedSys_def loadedApp_def handleExportFrom_def initialApp_def truthy_def
      exportDisabled_def)

lemma removeAt_short: "length xs \<le> 1 \<Longrightarrow> k < length xs \<Longrightarrow> removeAt k xs = []"
  by (cases xs) (auto simp: removeAt_def)

lemma singleFlight_fire_other:
  assumes "singleFlight w" and "e \<noteq> ClickExport"
  shows "singleFlight (fire toLowerCase e w)"
proof (cases e)
  case ClickExport
  with assms(2) show ?thesis by simp
next
  case (ToPngResolves k dataUrl instant)
  with assms(1) show ?thesis
    by (auto simp: singleFlight_def toPngResolves_def exportResolved_def removeAt_short)
next
  case (ToPngRejects k)
  with assms(1) show ?thesis
    by (auto simp: singleFlight_def toPngRejects_def exportRejected_def removeAt_short)
next
  case ClickClear
  with assms(1) show ?thesis
    by (auto simp: singleFlight_def liftApp_def handleClearImage_def)
next
  case (FileInputChange f)
  with assms(1) show ?thesis
    by (auto simp: singleFlight_def handleFileInputChange_def readFile_def split: option.splits)
next
  case (Drop f)
  with assms(1) show ?thesis
    by (auto simp: singleFlight_def handleDrop_def liftApp_def readFile_def Let_def
        split: option.splits)
next
  case (ReaderLoads k r)
  with assms(1) show ?thesis
    by (auto simp: singleFlight_def readerLoads_def readerOnload_def Let_def)
qed (insert assms(1), auto simp: singleFlight_def liftApp_def updateSetting_def
      selectGradientPreset_def selectSolidPreset_def resetSettings_def setExportScale_def
      handleDragOver_def handleDragLeave_def)

lemma singleFlight_fire_click:
  assumes "singleFlight w" and "rendered w = ui w"
  shows "singleFlight (fire toLowerCase ClickExport w)"
  using assms
  by (auto simp: singleFlight_def exportDisabled_def handleExportFrom_def)

lemma singleFlight_run:
  "singleFlight w \<Longrightarrow> (fresh \<longrightarrow> rendered w = ui w) \<Longrightarrow> clicksOnFreshRender fresh es \<Longrightarrow>
     singleFlight (run toLowerCase es w)"
proof (induction es arbitrary: w fresh)
  case Nil
  then show ?case by simp
next
  case (Cons e es)
  show ?case
  proof (cases "e = ClickExport")
    case True
    with Cons.prems have "fresh" and rest: "clicksOnFreshRender False es" by simp_all
    with Cons.prems have "singleFlight (fire toLowerCase e w)"
      using True by (simp add: singleFlight_fire_click del: fire.simps)
    with rest show ?thesis
      using Cons.IH [of "fire toLowerCase e w" False] by simp
  next
    case False
    with Cons.prems have sf: "singleFlight (fire toLowerCase e w)"
      by (simp add: singleFlight_fire_other del: fire.simps)
    show ?thesis
    proof (cases "e = Commit")
      case True
      with Cons.prems have "clicksOnFreshRender True es" by simp
      moreover have "rendered (fire toLowerCase e w) = ui (fire toLowerCase e w)"
        using True by simp
      ultimately show ?thesis
        using Cons.IH [of "fire toLowerCase e w" True] sf by simp
    next
      case notCommit: False
      with False Cons.prems have "clicksOnFreshRender False es"
        by (cases e) simp_all
      then show ?thesis
        using Cons.IH [of "fire toLowerCase e w" False] sf by simp
    qed
  qed
qed

lemma singleFlight_initial: "singleFlight initialSys \<and> rendered initialSys = ui initialSys"
  by (simp add: singleFlight_def initialSys_def initialApp_def)

text \<open>
  Claim C2, amended. When every click on the export button meets the page of the
  current state (React has committed a render since the event before the click), then
  after any sequence of events at most one snapshot is in flight, and \<open>isExporting\<close>
  holds exactly while one is: a click while a snapshot is in flight meets the disabled
  button and is dropped.
\<close>

theorem export_single_flight_on_fresh_render:
  "clicksOnFreshRender True es \<Longrightarrow>
     length (exports (run toLowerCase es initialSys)) \<le> 1 \<and>
     isExporting (ui (run toLowerCase es initialSys)) =
       (exports (run toLowerCase es initialSys) \<noteq> [])"
  using singleFlight_run [of initialSys True es toLowerCase] singleFlight_initial
  by (simp add: singleFlight_def)

theorem export_single_flight_on_fresh_render_witness:
  "length (exports (run exampleLower
      [FileInputChange (Some examplePng), ReaderLoads 0 ''data:image/png;base64,iVBORw0KGgo='',
       Commit, ClickExport, Commit, ClickExport] initialSys)) \<le> 1 \<and>
   isExporting (ui (run exampleLower
      [FileInputChange (Some examplePng), ReaderLoads 0 ''data:image/png;base64,iVBORw0KGgo='',
       Commit, ClickExport, Commit, ClickExport] initialSys))"
proof -
  have h: "clicksOnFreshRender True
      [FileInputChange (Some examplePng), ReaderLoads 0 ''data:image/png;base64,iVBORw0KGgo='',
       Commit, ClickExport, Commit, ClickExport]"
    by simp
  have "exports (run exampleLower
      [FileInputChange (Some examplePng), ReaderLoads 0 ''data:image/png;base64,iVBORw0KGgo='',
       Commit, ClickExport, Commit, ClickExport] initialSys) \<noteq> []"
    by (simp add: initialSys_def initialApp_def handleFileInputChange_def readFile_def
      startsWith_def examplePng_def readerLoads_def readerOnload_def removeAt_def
      exportDisabled_def truthy_def handleExportFrom_def friendlyName_examplePng)
  with export_single_flight_on_fresh_render [OF h, of exampleLower] show ?thesis
    by simp
qed

section \<open>The download name\<close>

lemma hyphen_not_alnum: "isLowerAlnum c \<Longrightarrow> c \<noteq> hyphen"
  by (auto simp: isLowerAlnum_def hyphen_def)

lemma collapseRuns_inRun:
  "collapseRuns True cs = collapseRuns False (dropWhile (\<lambda>d. \<not> isLowerAlnum d) cs)"
  by (induction cs) auto

lemma replaceRuns_collapse: "replaceRuns s = collapseRuns False s"
  by (induction s rule: replaceRuns.induct) (auto simp: collapseRuns_inRun)

text \<open>The output of \<open>collapseRuns\<close> has no two hyphens in a row, and inside a run it
  does not begin with a hyphen.\<close>

lemma collapseRuns_shape:
  "(\<nexists>a b. collapseRuns inRun s = a @ [hyphen, hyphen] @ b) \<and>
   (inRun \<longrightarrow> (\<nexists>b. collapseRuns inRun s = hyphen # b))"
proof (induction s arbitrary: inRun)
  case Nil
  show ?case by simp
next
  case (Cons c cs)
  show ?case
  proof (cases "isLowerAlnum c")
    case True
    then have "c \<noteq> hyphen" by (rule hyphen_not_alnum)
    with True Cons [of False] show ?thesis
      by (auto simp: Cons_eq_append_conv)
  next
    case False
    with Cons [of True] show ?thesis
      by (auto simp: Cons_eq_append_conv)
  qed
qed

lemma dropWhile_hyphen_once:
  assumes "\<nexists>a b. t = a @ [hyphen, hyphen] @ b"
  shows "dropWhile (\<lambda>c. c = hyphen) t =
           (case t of [] \<Rightarrow> [] | c # cs \<Rightarrow> if c = hyphen then cs else t)"
proof (cases t)
  case Nil
  then show ?thesis by simp
next
  case (Cons c cs)
  show ?thesis
  proof (cases "c = hyphen")
    case False
    with Cons show ?thesis by simp
  next
    case True
    have "cs = [] \<or> hd cs \<noteq> hyphen"
    proof (cases cs)
      case Nil
      then show ?thesis by simp
    next
      case (Cons d ds)
      with assms \<open>t = c # cs\<close> True have "d \<noteq> hyphen"
        by (metis append_Cons append_Nil)
      with Cons show ?thesis by simp
    qed
    with Cons True show ?thesis by (cases cs) auto
  qed
qed

lemma no_double_tl:
  assumes "\<nexists>a b. t = a @ [hyphen, hyphen] @ b"
  shows "\<nexists>a b. (case t of [] \<Rightarrow> [] | c # cs \<Rightarrow> if c = hyphen then cs else t)
           = a @ [hyphen, hyphen] @ b"
proof (cases t)
  case Nil
  then show ?thesis by simp
next
  case (Cons c cs)
  have "\<nexists>a b. cs = a @ [hyphen, hyphen] @ b"
  proof
    assume "\<exists>a b. cs = a @ [hyphen, hyphen] @ b"
    then obtain a b where "cs = a @ [hyphen, hyphen] @ b" by blast
    then have "t = (c # a) @ [hyphen, hyphen] @ b" using Cons by simp
    with assms show False by blast
  qed
  with Cons assms show ?thesis by auto
qed

lemma no_double_rev:
  assumes "\<nexists>a b. t = a @ [hyphen, hyphen] @ b"
  shows "\<nexists>a b. rev t = a @ [hyphen, hyphen] @ b"
proof
  assume "\<exists>a b. rev t = a @ [hyphen, hyphen] @ b"
  then obtain a b where "rev t = a @ [hyphen, hyphen] @ b" by blast
  then have "rev (rev t) = rev (a @ [hyphen, hyphen] @ b)" by simp
  then have "t = rev b @ [hyphen, hyphen] @ rev a" by simp
  with assms show False by blast
qed

lemma rev_dropWhile_hyphen_once:
  assumes "\<nexists>a b. t = a @ [hyphen, hyphen] @ b"
  shows "rev (dropWhile (\<lambda>c. c = hyphen) (rev t)) =
           (if t \<noteq> [] \<and> last t = hyphen then butlast t else t)"
proof (cases "t = []")
  case True
  then show ?thesis by simp
next
  case False
  then obtain c cs where r: "rev t = c # cs" by (cases "rev t") auto
  then have t: "t = rev cs @ [c]" by (metis rev.simps(2) rev_rev_ident)
  have "dropWhile (\<lambda>c. c = hyphen) (rev t) =
          (case rev t of [] \<Rightarrow> [] | c # cs \<Rightarrow> if c = hyphen then cs else rev t)"
    using assms by (intro dropWhile_hyphen_once no_double_rev)
  with r t show ?thesis by simp
qed

lemma stripEdgeHyphens_trim:
  assumes "\<nexists>a b. t = a @ [hyphen, hyphen] @ b"
  shows "stripEdgeHyphens t = trimHyphens t"
  unfolding stripEdgeHyphens_def trimHyphens_def Let_def
  using dropWhile_hyphen_once [OF assms] rev_dropWhile_hyphen_once [OF no_double_tl [OF assms]]
  by simp

lemma safeName_spec:
  "safeName toLowerCase name = trimHyphens (collapseRuns False (toLowerCase name))"
  using collapseRuns_shape [of False "toLowerCase name"]
  by (simp add: safeName_def replaceRuns_collapse stripEdgeHyphens_trim)

lemma timestamp_pointwise:
  "list_all2 (\<lambda>c d. d = (if c = CHR '':'' \<or> c = CHR ''.'' then CHR ''-'' else c))
     instant (timestamp instant)"
  by (simp add: timestamp_def list_all2_map2 list_all2_same)

text \<open>What the two replacements make of three lowercased names.\<close>

lemma sanitize_examples:
  "stripEdgeHyphens (replaceRuns (units ''my screenshot #1!'')) = units ''my-screenshot-1''"
  "stripEdgeHyphens (replaceRuns (units ''#!?'')) = []"
  "stripEdgeHyphens (replaceRuns []) = []"
  by code_simp+

lemma exampleLower_examples:
  "exampleLower (units ''My Screenshot #1!'') = units ''my screenshot #1!''"
  "exampleLower (units ''#!?'') = units ''#!?''"
  "exampleLower [] = []"
  "exampleLower [8490, 49] = units ''k1''"
  "exampleLower (304 # units ''stanbul'') = 105 # 775 # units ''stanbul''"
  by code_simp+

text \<open>
  Claim C5. For every display name (any sequence of UTF-16 code units), scale and ISO
  instant, and whatever the runtime's \<^verbatim>\<open>toLowerCase\<close> is, the download name is the
  sanitized display name, a hyphen, the scale with \<^verbatim>\<open>x-\<close>, the timestamp and \<^verbatim>\<open>.png\<close>.
  The sanitized name is the one the specification describes (\<open>sanitizeSpec\<close>: lowercase,
  one hyphen for each run of code units outside \<^verbatim>\<open>a-z0-9\<close>, hyphens trimmed at both
  ends, \<^verbatim>\<open>screenshot\<close> when nothing is left), and the timestamp is the instant with each
  colon and each dot replaced by a hyphen and every other character kept. This name is
  the one of the download that a resolved export triggers. With a \<^verbatim>\<open>toLowerCase\<close> that
  lowercases \<^verbatim>\<open>My Screenshot #1!\<close> to \<^verbatim>\<open>my screenshot #1!\<close>, that name sanitizes to
  \<^verbatim>\<open>my-screenshot-1\<close>; the empty name and a name of punctuation only, which lowercasing
  keeps, sanitize to \<^verbatim>\<open>screenshot\<close>.
\<close>

theorem downloadName_format:
  "downloadName toLowerCase name scale instant =
     sanitizeSpec toLowerCase name @ units ''-'' @ units (scaleDigits scale) @ units ''x-''
       @ units (timestamp instant) @ units ''.png'' \<and>
   list_all2 (\<lambda>c d. d = (if c = CHR '':'' \<or> c = CHR ''.'' then CHR ''-'' else c))
     instant (timestamp instant) \<and>
   effects (exportResolved toLowerCase job dataUrl instant w) =
     effects w @ [Download (downloadName toLowerCase (jobName job) (jobScale job) instant) dataUrl] \<and>
   (toLowerCase (units ''My Screenshot #1!'') = units ''my screenshot #1!'' \<longrightarrow>
      safeName toLowerCase (units ''My Screenshot #1!'') = units ''my-screenshot-1'' \<and>
      sanitizeSpec toLowerCase (units ''My Screenshot #1!'') = units ''my-screenshot-1'' \<and>
      downloadName toLowerCase (units ''My Screenshot #1!'') Scale2 ''2026-11-03T11:19:00.000Z'' =
        units ''my-screenshot-1-2x-2026-11-03T11-19-00-000Z.png'') \<and>
   (toLowerCase [] = [] \<longrightarrow> sanitizeSpec toLowerCase [] = units ''screenshot'') \<and>
   (toLowerCase (units ''#!?'') = units ''#!?'' \<longrightarrow>
      sanitizeSpec toLowerCase (units ''#!?'') = units ''screenshot'')"
proof -
  have spec: "sanitizeSpec toLowerCase n =
      (if safeName toLowerCase n = [] then units ''screenshot'' else safeName toLowerCase n)"
    for n
    by (simp add: sanitizeSpec_def safeName_spec Let_def)
  have fmt: "downloadName toLowerCase n sc i =
     sanitizeSpec toLowerCase n @ units ''-'' @ units (scaleDigits sc) @ units ''x-''
       @ units (timestamp i) @ units ''.png''"
    for n sc i
    by (simp add: downloadName_def spec Let_def)
  have eff: "effects (exportResolved toLowerCase job dataUrl instant w) =
     effects w @ [Download (downloadName toLowerCase (jobName job) (jobScale job) instant) dataUrl]"
    by (simp add: exportResolved_def)
  have stamp: "units ''my-screenshot-1'' @ units ''-'' @ units (scaleDigits Scale2) @ units ''x-''
       @ units (timestamp ''2026-11-03T11:19:00.000Z'') @ units ''.png'' =
     units ''my-screenshot-1-2x-2026-11-03T11-19-00-000Z.png''"
    by code_simp
  have e1: "safeName toLowerCase (units ''My Screenshot #1!'') = units ''my-screenshot-1'' \<and>
      sanitizeSpec toLowerCase (units ''My Screenshot #1!'') = units ''my-screenshot-1'' \<and>
      downloadName toLowerCase (units ''My Screenshot #1!'') Scale2 ''2026-11-03T11:19:00.000Z'' =
        units ''my-screenshot-1-2x-2026-11-03T11-19-00-000Z.png''"
    if "toLowerCase (units ''My Screenshot #1!'') = units ''my screenshot #1!''"
  proof -
    have s: "safeName toLowerCase (units ''My Screenshot #1!'') = units ''my-screenshot-1''"
      by (simp only: safeName_def that sanitize_examples)
    then have t: "sanitizeSpec toLowerCase (units ''My Screenshot #1!'') = units ''my-screenshot-1''"
      by (simp add: spec)
    from s t stamp show ?thesis by (simp only: fmt)
  qed
  have e2: "sanitizeSpec toLowerCase [] = units ''screenshot''" if "toLowerCase [] = []"
    by (simp add: spec safeName_def that stripEdgeHyphens_def)
  have e3: "sanitizeSpec toLowerCase (units ''#!?'') = units ''screenshot''"
    if "toLowerCase (units ''#!?'') = units ''#!?''"
    by (simp add: spec safeName_def that sanitize_examples)
  from fmt [of name scale instant] timestamp_pointwise eff e1 e2 e3 show ?thesis by blast
qed

theorem downloadName_format_witness:
  "safeName exampleLower (units ''My Screenshot #1!'') = units ''my-screenshot-1'' \<and>
   downloadName exampleLower (units ''My Screenshot #1!'') Scale2 ''2026-11-03T11:19:00.000Z'' =
     units ''my-screenshot-1-2x-2026-11-03T11-19-00-000Z.png'' \<and>
   sanitizeSpec exampleLower [] = units ''screenshot'' \<and>
   sanitizeSpec exampleLower (units ''#!?'') = units ''screenshot'' \<and>
   downloadName exampleLower [8490, 49] Scale1 ''2026-11-03T11:19:00.000Z'' =
     sanitizeSpec exampleLower [8490, 49] @ units ''-1x-2026-11-03T11-19-00-000Z.png'' \<and>
   sanitizeSpec exampleLower [8490, 49] = units ''k1'' \<and>
   sanitizeSpec exampleLower (304 # units ''stanbul'') = units ''i-stanbul''"
proof -
  have tail: "units ''-'' @ units (scaleDigits Scale1) @ units ''x-''
       @ units (timestamp ''2026-11-03T11:19:00.000Z'') @ units ''.png'' =
     units ''-1x-2026-11-03T11-19-00-000Z.png''"
    by code_simp
  have k: "sanitizeSpec exampleLower [8490, 49] = units ''k1''" by code_simp
  have i: "sanitizeSpec exampleLower (304 # units ''stanbul'') = units ''i-stanbul''" by code_simp
  from downloadName_format [of exampleLower "units ''My Screenshot #1!''" Scale2
      "''2026-11-03T11:19:00.000Z''"]
    downloadName_format [of exampleLower "[8490, 49]" Scale1 "''2026-11-03T11:19:00.000Z''"]
    exampleLower_examples tail k i
  show ?thesis by simp
qed

end
